theory Spec2Isabelle
  imports Main
begin

section \<open>Snakes on a Plane: a shallow embedding of the Python program\<close>

text \<open>
  The program moves several snakes of fixed length over a lattice. A snake (class
  \<open>Snake\<close>) holds its head, its body as two coordinate arrays, and a trapped flag; the
  grid (class \<open>Grid\<close>) holds the snakes, the lattice size, the boundary condition and a
  boolean numpy array of the occupied sites, and drives the steps.

  Python integers are unbounded: coordinates are \<open>int\<close>. Every exception the code can
  raise while it runs is a value of \<open>error\<close>, and every function that can raise returns
  \<open>error + 'a\<close> (\<open>Inl\<close> the exception). The plotting calls (matplotlib) change nothing
  the simulation reads; of them only the number of \<open>plt.pause\<close> calls is kept, as the
  count of finished steps.
\<close>

subsection \<open>Exceptions\<close>

datatype error = IndexError | ZeroDivisionError | ValueError

definition ebind :: "error + 'a \<Rightarrow> ('a \<Rightarrow> error + 'b) \<Rightarrow> error + 'b" where
  "ebind m f = (case m of Inl e \<Rightarrow> Inl e | Inr x \<Rightarrow> f x)"

text \<open>Python's \<open>a % b\<close> on integers: floored, the sign of the divisor, as \<open>mod\<close> on
  \<open>int\<close>; it raises for \<open>b = 0\<close>, where HOL's \<open>mod\<close> returns \<open>a\<close>.\<close>

definition py_mod :: "int \<Rightarrow> int \<Rightarrow> error + int" where
  "py_mod a b = (if b = 0 then Inl ZeroDivisionError else Inr (a mod b))"

text \<open>Python's \<open>x or y\<close> and \<open>x and y\<close> evaluate \<open>y\<close> only when \<open>x\<close> does not
  decide the result, so an index error in \<open>y\<close> is raised only then.\<close>

definition py_or :: "error + bool \<Rightarrow> error + bool \<Rightarrow> error + bool" where
  "py_or a b = ebind a (\<lambda>x. if x then Inr True else b)"

definition py_and :: "bool \<Rightarrow> error + bool \<Rightarrow> error + bool" where
  "py_and c b = (if c then b else Inr False)"

subsection \<open>The boolean numpy array\<close>

text \<open>
  A two-dimensional boolean array: its shape and the set of the positions holding
  \<open>True\<close>. An index \<open>i\<close> on an axis of size \<open>n\<close> is legal for \<open>-n \<le> i < n\<close>, a
  negative one counting from the end; any other raises IndexError.
\<close>

record ndarray =
  rows :: nat
  cols :: nat
  cells :: "(nat \<times> nat) set"

definition np_zeros :: "int \<Rightarrow> int \<Rightarrow> error + ndarray" where
  "np_zeros m n =
     (if m < 0 \<or> n < 0 then Inl ValueError
      else Inr \<lparr>rows = nat m, cols = nat n, cells = {}\<rparr>)"

definition axis_index :: "nat \<Rightarrow> int \<Rightarrow> error + nat" where
  "axis_index n i =
     (if 0 \<le> i \<and> i < int n then Inr (nat i)
      else if - int n \<le> i \<and> i < 0 then Inr (nat (i + int n))
      else Inl IndexError)"

definition getitem :: "ndarray \<Rightarrow> int \<Rightarrow> int \<Rightarrow> error + bool" where
  "getitem a i j =
     ebind (axis_index (rows a) i) (\<lambda>r.
     ebind (axis_index (cols a) j) (\<lambda>c.
       Inr ((r, c) \<in> cells a)))"

definition setitem :: "ndarray \<Rightarrow> int \<Rightarrow> int \<Rightarrow> bool \<Rightarrow> error + ndarray" where
  "setitem a i j v =
     ebind (axis_index (rows a) i) (\<lambda>r.
     ebind (axis_index (cols a) j) (\<lambda>c.
       Inr (a\<lparr>cells := (if v then insert (r, c) (cells a) else cells a - {(r, c)})\<rparr>)))"

text \<open>\<open>a[xs, ys] = v\<close> with two index arrays: the arrays are broadcast against each
  other (equal lengths, or one of length one) and every pair is written.\<close>

definition broadcast :: "int list \<Rightarrow> int list \<Rightarrow> error + (int \<times> int) list" where
  "broadcast xs ys =
     (if length xs = length ys then Inr (zip xs ys)
      else if length xs = 1 then Inr (map (\<lambda>y. (hd xs, y)) ys)
      else if length ys = 1 then Inr (map (\<lambda>x. (x, hd ys)) xs)
      else Inl IndexError)"

fun setitems :: "ndarray \<Rightarrow> (int \<times> int) list \<Rightarrow> bool \<Rightarrow> error + ndarray" where
  "setitems a [] v = Inr a"
| "setitems a (p # ps) v = ebind (setitem a (fst p) (snd p) v) (\<lambda>a'. setitems a' ps v)"

definition setitem_fancy :: "ndarray \<Rightarrow> int list \<Rightarrow> int list \<Rightarrow> bool \<Rightarrow> error + ndarray" where
  "setitem_fancy a xs ys v = ebind (broadcast xs ys) (\<lambda>ps. setitems a ps v)"

text \<open>\<open>np.arange(start, stop, step)\<close> on integers, for a step other than zero (the
  code calls it with 1 and -1 only).\<close>

definition np_arange :: "int \<Rightarrow> int \<Rightarrow> int \<Rightarrow> int list" where
  "np_arange start stop step =
     map (\<lambda>k. start + int k * step) [0 ..< nat (- ((start - stop) div step))]"

text \<open>\<open>xs[-1]\<close>: the last element, IndexError on an empty array.\<close>

definition py_last :: "int list \<Rightarrow> error + int" where
  "py_last xs = (if xs = [] then Inl IndexError else Inr (last xs))"

subsection \<open>class Snake\<close>

text \<open>The four direction strings \<open>'north'\<close>, \<open>'east'\<close>, \<open>'south'\<close>, \<open>'west'\<close>. The
  constructor assigns the body arrays only for these four orientations, so the model
  takes the orientation from this type.\<close>

datatype compass = North | East | South | West

record snake =
  xpos :: int
  ypos :: int
  linexpos :: "int list"
  lineypos :: "int list"
  symbol :: string
  color :: string
  orientation :: compass
  length_snake :: int
  direction :: "compass option"
  trapped :: bool

text \<open>\<open>Snake.__init__\<close> (lines 37 to 59): the body is laid out backwards from the
  head along the axis of the orientation.\<close>

definition Snake_init :: "int \<times> int \<Rightarrow> string \<Rightarrow> string \<Rightarrow> compass \<Rightarrow> int \<Rightarrow> snake" where
  "Snake_init position symb colr orient len =
     \<lparr>xpos = fst position,
      ypos = snd position,
      linexpos =
        (case orient of
           North \<Rightarrow> replicate (nat len) (fst position)
         | South \<Rightarrow> replicate (nat len) (fst position)
         | East \<Rightarrow> np_arange (fst position) (fst position - len) (- 1)
         | West \<Rightarrow> np_arange (fst position) (fst position + len) 1),
      lineypos =
        (case orient of
           North \<Rightarrow> np_arange (snd position) (snd position - len) (- 1)
         | South \<Rightarrow> np_arange (snd position) (snd position + len) 1
         | East \<Rightarrow> replicate (nat len) (snd position)
         | West \<Rightarrow> replicate (nat len) (snd position)),
      symbol = symb,
      color = colr,
      orientation = orient,
      length_snake = len,
      direction = None,
      trapped = False\<rparr>"

text \<open>\<open>Snake.move\<close>, lines 75 to 97: the set of disallowed directions. An unknown
  boundary condition takes neither branch and leaves the set empty.\<close>

definition disallowed :: "int \<Rightarrow> int \<Rightarrow> string \<Rightarrow> ndarray \<Rightarrow> snake \<Rightarrow> error + compass set" where
  "disallowed xmax ymax bc occupied s =
     (if bc = ''wall'' then
        ebind (py_or (Inr (ypos s = ymax)) (getitem occupied (xpos s) (ypos s + 1))) (\<lambda>n.
        ebind (py_or (Inr (xpos s = xmax)) (getitem occupied (xpos s + 1) (ypos s))) (\<lambda>e.
        ebind (py_or (Inr (ypos s = 0)) (getitem occupied (xpos s) (ypos s - 1))) (\<lambda>so.
        ebind (py_or (Inr (xpos s = 0)) (getitem occupied (xpos s - 1) (ypos s))) (\<lambda>w.
          Inr ((if n then {North} else {}) \<union> (if e then {East} else {}) \<union>
               (if so then {South} else {}) \<union> (if w then {West} else {}))))))
      else if bc = ''periodic'' then
        ebind (py_or
                 (py_and (ypos s = ymax)
                    (ebind (py_mod (ypos s + 1) ymax) (\<lambda>k. getitem occupied (xpos s) k)))
                 (py_and (ypos s < ymax) (getitem occupied (xpos s) (ypos s + 1)))) (\<lambda>n.
        ebind (py_or
                 (py_and (xpos s = xmax)
                    (ebind (py_mod (xpos s + 1) xmax) (\<lambda>k. getitem occupied k (ypos s))))
                 (py_and (xpos s < xmax) (getitem occupied (xpos s + 1) (ypos s)))) (\<lambda>e.
        ebind (py_or
                 (py_and (ypos s = 0)
                    (ebind (py_mod (ypos s - 1) ymax) (\<lambda>k. getitem occupied (xpos s) k)))
                 (py_and (ypos s > 0) (getitem occupied (xpos s) (ypos s - 1)))) (\<lambda>so.
        ebind (py_or
                 (py_and (xpos s = 0)
                    (ebind (py_mod (xpos s - 1) xmax) (\<lambda>k. getitem occupied k (ypos s))))
                 (py_and (xpos s > 0) (getitem occupied (xpos s - 1) (ypos s)))) (\<lambda>w.
          Inr ((if n then {North} else {}) \<union> (if e then {East} else {}) \<union>
               (if so then {South} else {}) \<union> (if w then {West} else {}))))))
      else Inr {})"

text \<open>Line 100: the allowed directions.\<close>

definition allowed_dirs :: "int \<Rightarrow> int \<Rightarrow> string \<Rightarrow> ndarray \<Rightarrow> snake \<Rightarrow> error + compass set" where
  "allowed_dirs xmax ymax bc occupied s =
     ebind (disallowed xmax ymax bc occupied s) (\<lambda>d. Inr ({North, East, South, West} - d))"

text \<open>
  Line 110, \<open>random.choice(list(allowed))\<close>: the order in which Python lists a set of
  strings is not fixed, and the choice is random. The model lists the set in the order
  north, east, south, west and takes the element at the position the random draw \<open>r\<close>
  gives; as \<open>r\<close> ranges over the naturals every element of the set is chosen by some
  draw, so a statement for every \<open>r\<close> covers every order and every choice.
\<close>

definition list_of :: "compass set \<Rightarrow> compass list" where
  "list_of A = filter (\<lambda>d. d \<in> A) [North, East, South, West]"

definition random_choice :: "nat \<Rightarrow> compass list \<Rightarrow> compass" where
  "random_choice r xs = xs ! (r mod length xs)"

text \<open>Lines 111 to 126: the head moves one site in the chosen direction; under
  \<open>'wall'\<close> only while it stays on the lattice, under an unknown condition never.\<close>

definition shift :: "int \<Rightarrow> int \<Rightarrow> string \<Rightarrow> snake \<Rightarrow> snake" where
  "shift xmax ymax bc s =
     (case direction s of
        Some North \<Rightarrow>
          (if (bc = ''wall'' \<and> ypos s < ymax) \<or> bc = ''periodic''
           then s\<lparr>ypos := ypos s + 1\<rparr> else s)
      | Some East \<Rightarrow>
          (if (bc = ''wall'' \<and> xpos s < xmax) \<or> bc = ''periodic''
           then s\<lparr>xpos := xpos s + 1\<rparr> else s)
      | Some South \<Rightarrow>
          (if (bc = ''wall'' \<and> ypos s > 0) \<or> bc = ''periodic''
           then s\<lparr>ypos := ypos s - 1\<rparr> else s)
      | Some West \<Rightarrow>
          (if (bc = ''wall'' \<and> xpos s > 0) \<or> bc = ''periodic''
           then s\<lparr>xpos := xpos s - 1\<rparr> else s)
      | None \<Rightarrow> s)"

text \<open>Lines 129 to 132: the head is put in front of the body arrays and their last
  entry is deleted.\<close>

definition advance_body :: "snake \<Rightarrow> snake" where
  "advance_body s =
     s\<lparr>linexpos := butlast (xpos s # linexpos s),
       lineypos := butlast (ypos s # lineypos s)\<rparr>"

text \<open>Lines 145 to 148: a coordinate other than the maximum is reduced modulo the
  maximum. This runs under every boundary condition.\<close>

definition normalise :: "int \<Rightarrow> int \<Rightarrow> snake \<Rightarrow> error + snake" where
  "normalise xmax ymax s =
     ebind (if xpos s \<noteq> xmax then py_mod (xpos s) xmax else Inr (xpos s)) (\<lambda>x.
     ebind (if ypos s \<noteq> ymax then py_mod (ypos s) ymax else Inr (ypos s)) (\<lambda>y.
       Inr (s\<lparr>xpos := x, ypos := y\<rparr>)))"

text \<open>\<open>Snake.move\<close> as a whole; \<open>r\<close> is the random draw of this call.\<close>

definition move :: "nat \<Rightarrow> int \<Rightarrow> int \<Rightarrow> string \<Rightarrow> ndarray \<Rightarrow> snake \<Rightarrow> error + snake" where
  "move r xmax ymax bc occupied s =
     ebind (allowed_dirs xmax ymax bc occupied s) (\<lambda>allowed.
       if card allowed = 0 then Inr (s\<lparr>trapped := True\<rparr>)
       else normalise xmax ymax (advance_body (shift xmax ymax bc
              (s\<lparr>direction := Some (random_choice r (list_of allowed))\<rparr>))))"

subsection \<open>class Grid\<close>

record grid =
  snakes :: "snake list"
  xmax :: int
  ymax :: int
  bc :: string
  nSteps :: int
  occupied :: ndarray
  pauses :: nat

text \<open>\<open>Grid.__init__\<close>, lines 164 to 183: the array of \<open>(xmax + 1) \<times> (ymax + 1)\<close>
  sites, with the head and the body of every snake marked. The boundary condition is
  stored as it is given.\<close>

fun mark_snakes :: "ndarray \<Rightarrow> snake list \<Rightarrow> error + ndarray" where
  "mark_snakes occ [] = Inr occ"
| "mark_snakes occ (w # ws) =
     ebind (setitem occ (xpos w) (ypos w) True) (\<lambda>o1.
     ebind (setitem_fancy o1 (linexpos w) (lineypos w) True) (\<lambda>o2.
       mark_snakes o2 ws))"

definition Grid_init :: "snake list \<Rightarrow> int \<times> int \<Rightarrow> string \<Rightarrow> int \<Rightarrow> error + grid" where
  "Grid_init ss gridsize boundary steps =
     ebind (np_zeros (fst gridsize + 1) (snd gridsize + 1)) (\<lambda>occ.
     ebind (mark_snakes occ ss) (\<lambda>occ'.
       Inr \<lparr>snakes = ss, xmax = fst gridsize, ymax = snd gridsize, bc = boundary,
            nSteps = steps, occupied = occ', pauses = 0\<rparr>))"

text \<open>Lines 199 to 216: the sites a snake that has moved is marked on.\<close>

definition mark_moved :: "int \<Rightarrow> int \<Rightarrow> string \<Rightarrow> ndarray \<Rightarrow> snake \<Rightarrow> error + ndarray" where
  "mark_moved xm ym boundary occ w =
     ebind (setitem occ (xpos w) (ypos w) True) (\<lambda>o1.
     ebind (setitem_fancy o1 (linexpos w) (lineypos w) True) (\<lambda>o2.
       if boundary = ''periodic'' then
         ebind (if xpos w = xm then setitem o2 0 (ypos w) True
                else if xpos w = 0 then setitem o2 xm (ypos w) True
                else Inr o2) (\<lambda>o3.
           if ypos w = ym then setitem o3 (xpos w) 0 True
           else if ypos w = 0 then setitem o3 (xpos w) ym True
           else Inr o3)
       else Inr o2))"

text \<open>Lines 194 to 216, the body of the loop over the snakes, for the snake at index
  \<open>i\<close> with the random draw \<open>r\<close>.\<close>

definition snake_step :: "nat \<Rightarrow> grid \<Rightarrow> nat \<Rightarrow> error + grid" where
  "snake_step r g i =
     ebind (py_last (linexpos (snakes g ! i))) (\<lambda>tx.
     ebind (py_last (lineypos (snakes g ! i))) (\<lambda>ty.
     ebind (setitem (occupied g) tx ty False) (\<lambda>o1.
     ebind (move r (xmax g) (ymax g) (bc g) o1 (snakes g ! i)) (\<lambda>w.
     ebind (if \<not> trapped w then mark_moved (xmax g) (ymax g) (bc g) o1 w else Inr o1) (\<lambda>o2.
       Inr (g\<lparr>snakes := (snakes g)[i := w], occupied := o2\<rparr>))))))"

text \<open>Line 193, the loop over the snakes in their order; the snake at index \<open>i\<close>
  draws \<open>rs i\<close>.\<close>

fun for_snakes :: "(nat \<Rightarrow> nat) \<Rightarrow> grid \<Rightarrow> nat list \<Rightarrow> error + grid" where
  "for_snakes rs g [] = Inr g"
| "for_snakes rs g (i # is) = ebind (snake_step (rs i) g i) (\<lambda>g'. for_snakes rs g' is)"

text \<open>Lines 193 to 219, one step: every snake in turn, then \<open>plt.pause\<close>.\<close>

definition tick :: "(nat \<Rightarrow> nat) \<Rightarrow> grid \<Rightarrow> error + grid" where
  "tick rs g =
     ebind (for_snakes rs g [0 ..< length (snakes g)]) (\<lambda>g'.
       Inr (g'\<lparr>pauses := pauses g' + 1\<rparr>))"

text \<open>Line 192, \<open>for j in range(self.nSteps)\<close>; step \<open>j\<close> draws from \<open>rnd j\<close>.\<close>

fun for_steps :: "(nat \<Rightarrow> nat \<Rightarrow> nat) \<Rightarrow> grid \<Rightarrow> nat list \<Rightarrow> error + grid" where
  "for_steps rnd g [] = Inr g"
| "for_steps rnd g (j # js) = ebind (tick (rnd j) g) (\<lambda>g'. for_steps rnd g' js)"

text \<open>\<open>Grid.go\<close>, lines 191 to 220. The \<open>break\<close> of line 220 leaves the \<open>while\<close>
  loop at the end of its first pass, so its condition is tested once, before the first
  step.\<close>

definition go :: "(nat \<Rightarrow> nat \<Rightarrow> nat) \<Rightarrow> grid \<Rightarrow> error + grid" where
  "go rnd g =
     (if \<not> list_all trapped (snakes g)
      then for_steps rnd g [0 ..< nat (nSteps g)]
      else Inr g)"

subsection \<open>The main program\<close>

text \<open>Lines 222 to 226: three snakes of length five on the default grid, \<open>20 \<times> 20\<close>
  with walls and 400 steps.\<close>

definition snec :: snake where
  "snec = Snake_init (5, 5) ''bo'' ''b'' North 5"

definition snek :: snake where
  "snek = Snake_init (15, 15) ''ro'' ''r'' South 5"

definition sneck :: snake where
  "sneck = Snake_init (5, 15) ''go'' ''g'' East 5"

definition rwalk :: "error + grid" where
  "rwalk = Grid_init [snec, snek, sneck] (20, 20) ''wall'' 400"

text \<open>The occupancy array of a \<open>20 \<times> 20\<close> grid that holds \<open>snec\<close> alone, after line
  194 has cleared the site of its tail, and \<open>snec\<close> after a first move north.\<close>

definition occ_snec :: ndarray where
  "occ_snec = \<lparr>rows = 21, cols = 21, cells = {(5, 5), (5, 4), (5, 3), (5, 2)}\<rparr>"

definition snec_moved :: snake where
  "snec_moved =
     \<lparr>xpos = 5, ypos = 6, linexpos = [5, 5, 5, 5, 5], lineypos = [6, 5, 4, 3, 2],
      symbol = ''bo'', color = ''b'', orientation = North, length_snake = 5,
      direction = Some North, trapped = False\<rparr>"

text \<open>Snakes of length three on a \<open>10 \<times> 10\<close> grid: one with its head in the corner
  \<open>(10, 10)\<close> and one with its head in the corner \<open>(0, 0)\<close>, each with the occupancy
  array of a grid that holds it alone, after line 194 has cleared the site of its tail.\<close>

definition corner_ne :: snake where
  "corner_ne = Snake_init (10, 10) ''bo'' ''b'' North 3"

definition occ_ne :: ndarray where
  "occ_ne = \<lparr>rows = 11, cols = 11, cells = {(10, 10), (10, 9)}\<rparr>"

definition corner_sw :: snake where
  "corner_sw = Snake_init (0, 0) ''ro'' ''r'' South 3"

definition occ_sw :: ndarray where
  "occ_sw = \<lparr>rows = 11, cols = 11, cells = {(0, 0), (0, 1)}\<rparr>"

subsection \<open>Notions the properties are stated with\<close>

text \<open>The call \<open>move\<close> reaches line 103, where it sets the trapped flag: the set
  of allowed directions was computed and is empty.\<close>

definition sets_trapped :: "int \<Rightarrow> int \<Rightarrow> string \<Rightarrow> ndarray \<Rightarrow> snake \<Rightarrow> bool" where
  "sets_trapped xm ym pol occ s =
     (case allowed_dirs xm ym pol occ s of Inl e \<Rightarrow> False | Inr A \<Rightarrow> card A = 0)"

text \<open>The site \<open>(i, j)\<close> lies in the array and is marked occupied.\<close>

definition marked :: "ndarray \<Rightarrow> int \<Rightarrow> int \<Rightarrow> bool" where
  "marked occ i j =
     (0 \<le> i \<and> i < int (rows occ) \<and> 0 \<le> j \<and> j < int (cols occ) \<and>
      (nat i, nat j) \<in> cells occ)"

text \<open>The head lies on the lattice \<open>[0, xm] \<times> [0, ym]\<close>.\<close>

definition on_lattice :: "int \<Rightarrow> int \<Rightarrow> snake \<Rightarrow> bool" where
  "on_lattice xm ym s = (0 \<le> xpos s \<and> xpos s \<le> xm \<and> 0 \<le> ypos s \<and> ypos s \<le> ym)"

text \<open>\<open>moves_to xm ym pol s t\<close>: the snake \<open>s\<close> becomes \<open>t\<close> by a sequence of calls of
  \<open>move\<close> that return, on a lattice and under a boundary condition that stay the same,
  each call with a random draw and an occupancy array of its own.\<close>

inductive moves_to :: "int \<Rightarrow> int \<Rightarrow> string \<Rightarrow> snake \<Rightarrow> snake \<Rightarrow> bool"
  for xm :: int and ym :: int and pol :: string
  where
    start: "moves_to xm ym pol s s"
  | step: "moves_to xm ym pol s t \<Longrightarrow> move r xm ym pol occ t = Inr u \<Longrightarrow> moves_to xm ym pol s u"

section \<open>Properties\<close>

subsection \<open>Exceptions and directions\<close>

lemma ebind_Inr [simp]: "ebind (Inr x) f = f x"
  by (simp add: ebind_def)

lemma ebind_Inl [simp]: "ebind (Inl e) f = Inl e"
  by (simp add: ebind_def)

lemma ebind_eq_Inr: "ebind m f = Inr y \<longleftrightarrow> (\<exists>x. m = Inr x \<and> f x = Inr y)"
  by (cases m) auto

lemma compass_UNIV: "(UNIV :: compass set) = {North, East, South, West}"
  by (auto intro: compass.exhaust)

lemma finite_compass: "finite (A :: compass set)"
proof -
  have "finite (UNIV :: compass set)" by (simp add: compass_UNIV)
  then show ?thesis by (rule finite_subset [OF subset_UNIV])
qed

lemma card_compass_0: "card (A :: compass set) = 0 \<longleftrightarrow> A = {}"
  by (simp add: finite_compass)

lemma in_list_of: "d \<in> set (list_of A) \<longleftrightarrow> d \<in> A"
  by (cases d) (simp_all add: list_of_def)

lemma set_list_of: "set (list_of A) = A"
  using in_list_of by blast

text \<open>The random choice is always one of the allowed directions.\<close>

lemma random_choice_in: "A \<noteq> {} \<Longrightarrow> random_choice r (list_of A) \<in> A"
proof -
  assume "A \<noteq> {}"
  then have "list_of A \<noteq> []" using set_list_of [of A] by auto
  then have "list_of A ! (r mod length (list_of A)) \<in> set (list_of A)"
    by (intro nth_mem) simp
  then show ?thesis by (simp add: random_choice_def set_list_of)
qed

subsection \<open>The two branches of move\<close>

lemma move_Inr:
  assumes "move r xm ym pol occ s = Inr t"
  shows "\<exists>A. allowed_dirs xm ym pol occ s = Inr A \<and>
           (A = {} \<longrightarrow> t = s\<lparr>trapped := True\<rparr>) \<and>
           (A \<noteq> {} \<longrightarrow> normalise xm ym (advance_body (shift xm ym pol
              (s\<lparr>direction := Some (random_choice r (list_of A))\<rparr>))) = Inr t)"
  using assms unfolding move_def ebind_eq_Inr
  by (auto simp: card_compass_0 split: if_splits)

lemma normalise_Inr:
  assumes "normalise xm ym s = Inr t"
  shows "t = s\<lparr>xpos := (if xpos s = xm then xm else xpos s mod xm),
                ypos := (if ypos s = ym then ym else ypos s mod ym)\<rparr>"
    and "xpos s \<noteq> xm \<Longrightarrow> xm \<noteq> 0" and "ypos s \<noteq> ym \<Longrightarrow> ym \<noteq> 0"
  using assms unfolding normalise_def ebind_eq_Inr py_mod_def
  by (auto split: if_splits)

lemma shift_lines [simp]:
  "linexpos (shift xm ym pol s) = linexpos s" "lineypos (shift xm ym pol s) = lineypos s"
  "trapped (shift xm ym pol s) = trapped s" "direction (shift xm ym pol s) = direction s"
  by (simp_all add: shift_def split: option.splits compass.splits)

lemma advance_body_head [simp]:
  "xpos (advance_body s) = xpos s" "ypos (advance_body s) = ypos s"
  "trapped (advance_body s) = trapped s" "direction (advance_body s) = direction s"
  by (simp_all add: advance_body_def)

lemma allowed_dirs_Inr:
  "allowed_dirs xm ym pol occ s = Inr A \<longleftrightarrow>
   (\<exists>D. disallowed xm ym pol occ s = Inr D \<and> A = {North, East, South, West} - D)"
  by (auto simp: allowed_dirs_def ebind_eq_Inr)

lemma sets_trapped_iff:
  "allowed_dirs xm ym pol occ s = Inr A \<Longrightarrow> sets_trapped xm ym pol occ s \<longleftrightarrow> A = {}"
  by (simp add: sets_trapped_def card_compass_0)

text \<open>A call that does not reach line 103 chooses an allowed direction \<open>d\<close>, stores it
  and returns the snake shifted, advanced and normalised.\<close>

lemma move_not_trapped:
  assumes "move r xm ym pol occ s = Inr t" and "\<not> sets_trapped xm ym pol occ s"
  shows "\<exists>A d. allowed_dirs xm ym pol occ s = Inr A \<and> d \<in> A \<and> direction t = Some d \<and>
           normalise xm ym (advance_body (shift xm ym pol (s\<lparr>direction := Some d\<rparr>))) = Inr t"
proof -
  from move_Inr [OF assms(1)] obtain A where a: "allowed_dirs xm ym pol occ s = Inr A"
    and n: "A \<noteq> {} \<Longrightarrow> normalise xm ym (advance_body (shift xm ym pol
            (s\<lparr>direction := Some (random_choice r (list_of A))\<rparr>))) = Inr t"
    by blast
  from a assms(2) have ne: "A \<noteq> {}" by (simp add: sets_trapped_iff)
  let ?d = "random_choice r (list_of A)"
  have "?d \<in> A" using ne by (rule random_choice_in)
  moreover have "direction t = Some ?d"
    using normalise_Inr(1) [OF n [OF ne]] by simp
  ultimately show ?thesis using a n [OF ne] by blast
qed

text \<open>In a call that returns, the flag is set at line 103 or keeps its value; a snake
  that was not trapped is trapped afterwards exactly when the call reached line 103.\<close>

lemma move_trapped:
  assumes "move r xm ym pol occ s = Inr t"
  shows "trapped t \<longleftrightarrow> trapped s \<or> sets_trapped xm ym pol occ s"
proof -
  from move_Inr [OF assms] obtain A where a: "allowed_dirs xm ym pol occ s = Inr A"
    and e: "A = {} \<Longrightarrow> t = s\<lparr>trapped := True\<rparr>"
    and n: "A \<noteq> {} \<Longrightarrow> normalise xm ym (advance_body (shift xm ym pol
            (s\<lparr>direction := Some (random_choice r (list_of A))\<rparr>))) = Inr t"
    by blast
  show ?thesis
  proof (cases "A = {}")
    case True
    with e a show ?thesis by (simp add: sets_trapped_iff)
  next
    case False
    from normalise_Inr(1) [OF n [OF False]] a False show ?thesis
      by (simp add: sets_trapped_iff)
  qed
qed

text \<open>The main program's first snake moves north on the first draw 0.\<close>

lemma move_snec: "move 0 20 20 ''wall'' occ_snec snec = Inr snec_moved"
  by code_simp

lemma snec_not_trapped: "\<not> sets_trapped 20 20 ''wall'' occ_snec snec"
  by code_simp

lemma moves_to_snec: "moves_to 20 20 ''wall'' snec snec_moved"
  by (rule moves_to.step [OF moves_to.start move_snec])

subsection \<open>The length of the body\<close>

lemma move_lengths:
  assumes "move r xm ym pol occ s = Inr t"
  shows "length (linexpos t) = length (linexpos s) \<and> length (lineypos t) = length (lineypos s)"
proof -
  from move_Inr [OF assms] obtain A where t: "A = {} \<Longrightarrow> t = s\<lparr>trapped := True\<rparr>"
    and n: "A \<noteq> {} \<Longrightarrow> normalise xm ym (advance_body (shift xm ym pol
            (s\<lparr>direction := Some (random_choice r (list_of A))\<rparr>))) = Inr t"
    by blast
  show ?thesis
  proof (cases "A = {}")
    case True
    with t show ?thesis by simp
  next
    case False
    from normalise_Inr(1) [OF n [OF False]] show ?thesis
      by (simp add: advance_body_def)
  qed
qed

lemma moves_to_lengths:
  assumes "moves_to xm ym pol s t"
  shows "length (linexpos t) = length (linexpos s) \<and> length (lineypos t) = length (lineypos s)"
  using assms
proof (induction rule: moves_to.induct)
  case start
  show ?case by simp
next
  case (step t r occ u)
  from move_lengths [OF step.hyps(2)] step.IH show ?case by simp
qed

lemma length_np_arange_down: "length (np_arange a (a - L) (- 1)) = nat L"
  by (simp add: np_arange_def)

lemma length_np_arange_up: "length (np_arange a (a + L) 1) = nat L"
  by (simp add: np_arange_def)

lemma Snake_init_lengths:
  "length (linexpos (Snake_init p sy co ori L)) = nat L \<and>
   length (lineypos (Snake_init p sy co ori L)) = nat L"
  by (cases ori) (simp_all add: Snake_init_def length_np_arange_down length_np_arange_up)

text \<open>
  Claim C8. A snake constructed with one of the four orientations and a length
  \<open>L \<ge> 1\<close> has a body of exactly \<open>L\<close> coordinates (both coordinate arrays have \<open>L\<close>
  entries) right after its construction and after every later call of \<open>move\<close> that
  returns, whatever the boundary condition, the lattice, the occupancy and the random
  draw of each call. The proof needs \<open>L \<ge> 0\<close> only.
\<close>

theorem body_length_invariant:
  assumes "0 \<le> L" and "moves_to xm ym pol (Snake_init p sy co ori L) s"
  shows "int (length (linexpos s)) = L \<and> int (length (lineypos s)) = L"
  using moves_to_lengths [OF assms(2)] Snake_init_lengths [of p sy co ori L] assms(1)
  by simp

theorem body_length_invariant_witness:
  "(0::int) \<le> 5 \<and>
   moves_to 20 20 ''wall'' (Snake_init (5, 5) ''bo'' ''b'' North 5) snec_moved \<and>
   int (length (linexpos snec_moved)) = 5 \<and> int (length (lineypos snec_moved)) = 5"
proof -
  have h: "(0::int) \<le> 5" by simp
  have m: "moves_to 20 20 ''wall'' (Snake_init (5, 5) ''bo'' ''b'' North 5) snec_moved"
    using moves_to_snec by (simp add: snec_def)
  from body_length_invariant [OF h m] h m show ?thesis by simp
qed

subsection \<open>Walls: the disallowed directions\<close>

lemma getitem_marked:
  "0 \<le> i \<Longrightarrow> i < int (rows occ) \<Longrightarrow> 0 \<le> j \<Longrightarrow> j < int (cols occ) \<Longrightarrow>
   getitem occ i j = Inr (marked occ i j)"
  by (simp add: getitem_def axis_index_def marked_def)

lemma py_or_edge:
  "(\<not> c \<Longrightarrow> b = Inr v) \<Longrightarrow> py_or (Inr c) b = Inr (c \<or> v)"
  by (simp add: py_or_def)

lemma py_or_True: "py_or (Inr True) b = Inr v \<Longrightarrow> v"
  by (simp add: py_or_def)

text \<open>With the head on the lattice and an array that covers the lattice no read
  raises, and the four tests give the set in closed form.\<close>

lemma disallowed_wall_eq:
  assumes "on_lattice xm ym s" and "xm < int (rows occ)" and "ym < int (cols occ)"
  shows "disallowed xm ym ''wall'' occ s =
         Inr ((if ypos s = ym \<or> marked occ (xpos s) (ypos s + 1) then {North} else {}) \<union>
              (if xpos s = xm \<or> marked occ (xpos s + 1) (ypos s) then {East} else {}) \<union>
              (if ypos s = 0 \<or> marked occ (xpos s) (ypos s - 1) then {South} else {}) \<union>
              (if xpos s = 0 \<or> marked occ (xpos s - 1) (ypos s) then {West} else {}))"
proof -
  have n: "py_or (Inr (ypos s = ym)) (getitem occ (xpos s) (ypos s + 1)) =
           Inr (ypos s = ym \<or> marked occ (xpos s) (ypos s + 1))"
    using assms by (intro py_or_edge getitem_marked) (simp_all add: on_lattice_def)
  have e: "py_or (Inr (xpos s = xm)) (getitem occ (xpos s + 1) (ypos s)) =
           Inr (xpos s = xm \<or> marked occ (xpos s + 1) (ypos s))"
    using assms by (intro py_or_edge getitem_marked) (simp_all add: on_lattice_def)
  have so: "py_or (Inr (ypos s = 0)) (getitem occ (xpos s) (ypos s - 1)) =
           Inr (ypos s = 0 \<or> marked occ (xpos s) (ypos s - 1))"
    using assms by (intro py_or_edge getitem_marked) (simp_all add: on_lattice_def)
  have w: "py_or (Inr (xpos s = 0)) (getitem occ (xpos s - 1) (ypos s)) =
           Inr (xpos s = 0 \<or> marked occ (xpos s - 1) (ypos s))"
    using assms by (intro py_or_edge getitem_marked) (simp_all add: on_lattice_def)
  show ?thesis unfolding disallowed_def n e so w by simp
qed

text \<open>Whatever the array and the head, a direction at whose edge the head stands is
  disallowed under \<open>'wall'\<close> when the tests return.\<close>

lemma disallowed_wall_edges:
  assumes "disallowed xm ym ''wall'' occ s = Inr D"
  shows "(ypos s = ym \<longrightarrow> North \<in> D) \<and> (xpos s = xm \<longrightarrow> East \<in> D) \<and>
         (ypos s = 0 \<longrightarrow> South \<in> D) \<and> (xpos s = 0 \<longrightarrow> West \<in> D)"
proof -
  from assms obtain n e so w
    where n: "py_or (Inr (ypos s = ym)) (getitem occ (xpos s) (ypos s + 1)) = Inr n"
      and e: "py_or (Inr (xpos s = xm)) (getitem occ (xpos s + 1) (ypos s)) = Inr e"
      and so: "py_or (Inr (ypos s = 0)) (getitem occ (xpos s) (ypos s - 1)) = Inr so"
      and w: "py_or (Inr (xpos s = 0)) (getitem occ (xpos s - 1) (ypos s)) = Inr w"
      and D: "D = (if n then {North} else {}) \<union> (if e then {East} else {}) \<union>
               (if so then {South} else {}) \<union> (if w then {West} else {})"
    by (auto simp: disallowed_def ebind_eq_Inr)
  have "ypos s = ym \<Longrightarrow> n" using n py_or_True by simp
  moreover have "xpos s = xm \<Longrightarrow> e" using e py_or_True by simp
  moreover have "ypos s = 0 \<Longrightarrow> so" using so py_or_True by simp
  moreover have "xpos s = 0 \<Longrightarrow> w" using w py_or_True by simp
  ultimately show ?thesis unfolding D by simp
qed

text \<open>
  Claim C6. Under the wall boundary condition, for a head on the lattice (and the
  occupancy array covering the lattice, as the one \<open>Grid\<close> builds does), \<open>move\<close>
  computes the disallowed set without raising, and a direction is in it if and only if
  the head stands at the edge that limits the direction (\<open>y = ymax\<close> for north,
  \<open>x = xmax\<close> for east, \<open>y = 0\<close> for south, \<open>x = 0\<close> for west) or the neighbouring
  site in the direction is marked occupied; the allowed set is its complement in
  \<open>{north, east, south, west}\<close>.
\<close>

theorem wall_disallowed_iff:
  assumes "0 \<le> xpos s \<and> xpos s \<le> xm \<and> 0 \<le> ypos s \<and> ypos s \<le> ym"
    and "xm < int (rows occ)" and "ym < int (cols occ)"
  shows "\<exists>D. disallowed xm ym ''wall'' occ s = Inr D \<and>
           (North \<in> D \<longleftrightarrow> ypos s = ym \<or> marked occ (xpos s) (ypos s + 1)) \<and>
           (East \<in> D \<longleftrightarrow> xpos s = xm \<or> marked occ (xpos s + 1) (ypos s)) \<and>
           (South \<in> D \<longleftrightarrow> ypos s = 0 \<or> marked occ (xpos s) (ypos s - 1)) \<and>
           (West \<in> D \<longleftrightarrow> xpos s = 0 \<or> marked occ (xpos s - 1) (ypos s)) \<and>
           allowed_dirs xm ym ''wall'' occ s = Inr ({North, East, South, West} - D)"
proof -
  from assms(1) have l: "on_lattice xm ym s" by (simp add: on_lattice_def)
  show ?thesis
    unfolding allowed_dirs_def disallowed_wall_eq [OF l assms(2,3)] by simp
qed

theorem wall_disallowed_iff_witness:
  "(0 \<le> xpos snec \<and> xpos snec \<le> 20 \<and> 0 \<le> ypos snec \<and> ypos snec \<le> 20) \<and>
   20 < int (rows occ_snec) \<and> 20 < int (cols occ_snec) \<and>
   (\<exists>D. disallowed 20 20 ''wall'' occ_snec snec = Inr D \<and>
      (North \<in> D \<longleftrightarrow> ypos snec = 20 \<or> marked occ_snec (xpos snec) (ypos snec + 1)) \<and>
      (East \<in> D \<longleftrightarrow> xpos snec = 20 \<or> marked occ_snec (xpos snec + 1) (ypos snec)) \<and>
      (South \<in> D \<longleftrightarrow> ypos snec = 0 \<or> marked occ_snec (xpos snec) (ypos snec - 1)) \<and>
      (West \<in> D \<longleftrightarrow> xpos snec = 0 \<or> marked occ_snec (xpos snec - 1) (ypos snec)) \<and>
      allowed_dirs 20 20 ''wall'' occ_snec snec = Inr ({North, East, South, West} - D))"
proof -
  have h1: "0 \<le> xpos snec \<and> xpos snec \<le> 20 \<and> 0 \<le> ypos snec \<and> ypos snec \<le> 20"
    by (simp add: snec_def Snake_init_def)
  have h2: "20 < int (rows occ_snec)" by (simp add: occ_snec_def)
  have h3: "20 < int (cols occ_snec)" by (simp add: occ_snec_def)
  from wall_disallowed_iff [OF h1 h2 h3] h1 h2 h3 show ?thesis by blast
qed

subsection \<open>Walls: the head stays on the lattice\<close>

lemma shift_wall_on_lattice:
  "on_lattice xm ym s \<Longrightarrow> on_lattice xm ym (shift xm ym ''wall'' s)"
  by (auto simp: on_lattice_def shift_def split: option.splits compass.splits)

lemma normalise_on_lattice:
  assumes "on_lattice xm ym s" and "normalise xm ym s = Inr t"
  shows "xpos t = xpos s \<and> ypos t = ypos s"
  using assms(1) normalise_Inr(1) [OF assms(2)]
  by (auto simp: on_lattice_def)

lemma move_wall_on_lattice:
  assumes "on_lattice xm ym s" and "move r xm ym ''wall'' occ s = Inr t"
  shows "on_lattice xm ym t"
proof -
  from move_Inr [OF assms(2)] obtain A where t: "A = {} \<Longrightarrow> t = s\<lparr>trapped := True\<rparr>"
    and n: "A \<noteq> {} \<Longrightarrow> normalise xm ym (advance_body (shift xm ym ''wall''
            (s\<lparr>direction := Some (random_choice r (list_of A))\<rparr>))) = Inr t"
    by blast
  show ?thesis
  proof (cases "A = {}")
    case True
    with t assms(1) show ?thesis by (simp add: on_lattice_def)
  next
    case False
    let ?s1 = "s\<lparr>direction := Some (random_choice r (list_of A))\<rparr>"
    let ?s3 = "advance_body (shift xm ym ''wall'' ?s1)"
    from assms(1) have "on_lattice xm ym ?s1" by (simp add: on_lattice_def)
    then have "on_lattice xm ym (shift xm ym ''wall'' ?s1)" by (rule shift_wall_on_lattice)
    then have l3: "on_lattice xm ym ?s3" by (simp add: on_lattice_def)
    from normalise_on_lattice [OF l3 n [OF False]] l3 show ?thesis
      by (simp add: on_lattice_def)
  qed
qed

text \<open>On the lattice, with an array that covers it, \<open>move\<close> under \<open>'wall'\<close> returns:
  no read leaves the array and no modulus is zero.\<close>

lemma move_wall_returns:
  assumes "on_lattice xm ym s" and "xm < int (rows occ)" and "ym < int (cols occ)"
  shows "\<exists>t. move r xm ym ''wall'' occ s = Inr t"
proof -
  from disallowed_wall_eq [OF assms] obtain D
    where A: "allowed_dirs xm ym ''wall'' occ s = Inr ({North, East, South, West} - D)"
    by (simp add: allowed_dirs_def)
  let ?s1 = "s\<lparr>direction := Some (random_choice r (list_of ({North, East, South, West} - D)))\<rparr>"
  let ?s3 = "advance_body (shift xm ym ''wall'' ?s1)"
  from assms(1) have "on_lattice xm ym ?s1" by (simp add: on_lattice_def)
  then have "on_lattice xm ym (shift xm ym ''wall'' ?s1)" by (rule shift_wall_on_lattice)
  then have l3: "on_lattice xm ym ?s3" by (simp add: on_lattice_def)
  then have "\<exists>t. normalise xm ym ?s3 = Inr t"
    by (auto simp: normalise_def py_mod_def on_lattice_def)
  then show ?thesis by (simp add: move_def A)
qed

lemma moves_to_wall_on_lattice:
  assumes "moves_to xm ym ''wall'' s t" and "on_lattice xm ym s"
  shows "on_lattice xm ym t"
  using assms
proof (induction rule: moves_to.induct)
  case start
  then show ?case .
next
  case (step t r occ u)
  from step.IH [OF step.prems] step.hyps(2) show ?case
    by (rule move_wall_on_lattice)
qed

text \<open>
  Claim C7. Under the wall boundary condition a head that starts within
  \<open>[0, xmax] \<times> [0, ymax]\<close> is within these bounds after every call of \<open>move\<close>, however
  many calls were made before, with whatever occupancy and random draw each. And the
  next call returns rather than raises when the occupancy array covers the lattice.
\<close>

theorem wall_containment:
  assumes "0 \<le> xpos s \<and> xpos s \<le> xm \<and> 0 \<le> ypos s \<and> ypos s \<le> ym"
    and "moves_to xm ym ''wall'' s t"
  shows "0 \<le> xpos t \<and> xpos t \<le> xm \<and> 0 \<le> ypos t \<and> ypos t \<le> ym \<and>
         (xm < int (rows occ) \<and> ym < int (cols occ) \<longrightarrow>
            (\<exists>u. move r xm ym ''wall'' occ t = Inr u))"
proof -
  from assms(1) have "on_lattice xm ym s" by (simp add: on_lattice_def)
  with assms(2) have l: "on_lattice xm ym t" by (rule moves_to_wall_on_lattice)
  then show ?thesis using move_wall_returns [OF l, of occ r]
    by (simp add: on_lattice_def)
qed

theorem wall_containment_witness:
  "(0 \<le> xpos snec \<and> xpos snec \<le> 20 \<and> 0 \<le> ypos snec \<and> ypos snec \<le> 20) \<and>
   moves_to 20 20 ''wall'' snec snec_moved \<and>
   0 \<le> xpos snec_moved \<and> xpos snec_moved \<le> 20 \<and>
   0 \<le> ypos snec_moved \<and> ypos snec_moved \<le> 20 \<and>
   20 < int (rows occ_snec) \<and> 20 < int (cols occ_snec) \<and>
   (\<exists>u. move 1 20 20 ''wall'' occ_snec snec_moved = Inr u)"
proof -
  have h1: "0 \<le> xpos snec \<and> xpos snec \<le> 20 \<and> 0 \<le> ypos snec \<and> ypos snec \<le> 20"
    by (simp add: snec_def Snake_init_def)
  have h2: "20 < int (rows occ_snec) \<and> 20 < int (cols occ_snec)"
    by (simp add: occ_snec_def)
  from wall_containment [OF h1 moves_to_snec, of occ_snec 1] h1 h2 moves_to_snec
  show ?thesis by blast
qed

subsection \<open>A snake that is not trapped leaves its site\<close>

lemma mod_succ_ne:
  assumes "2 \<le> (m::int)" shows "(y + 1) mod m \<noteq> y"
proof
  assume h: "(y + 1) mod m = y"
  then have "y mod m = y" by (metis mod_mod_trivial)
  with h have "(y + 1) mod m = y mod m" by simp
  then have "m dvd (y + 1 - y)" by (simp only: mod_eq_dvd_iff)
  then have "m dvd 1" by simp
  with assms show False by simp
qed

lemma mod_pred_ne:
  assumes "2 \<le> (m::int)" shows "(y - 1) mod m \<noteq> y"
proof
  assume h: "(y - 1) mod m = y"
  then have "y mod m = y" by (metis mod_mod_trivial)
  with h have "(y - 1) mod m = y mod m" by simp
  then have "m dvd (y - 1 - y)" by (simp only: mod_eq_dvd_iff)
  then have "m dvd 1" by simp
  with assms show False by simp
qed

lemma mod_above_ne:
  assumes "2 \<le> (m::int)" and "m < y" shows "y mod m \<noteq> y"
proof -
  from assms(1) have "0 < m" by simp
  then have "y mod m < m" by (rule pos_mod_bound)
  with assms(2) show ?thesis by linarith
qed

lemma mod_below_ne:
  assumes "2 \<le> (m::int)" and "y < 0" shows "y mod m \<noteq> y"
proof -
  from assms(1) have "0 < m" by simp
  then have "0 \<le> y mod m" by (rule pos_mod_sign)
  with assms(2) show ?thesis by linarith
qed

text \<open>
  Claim C10. On a grid with \<open>xmax \<ge> 2\<close> and \<open>ymax \<ge> 2\<close>, under \<open>'wall'\<close> or
  \<open>'periodic'\<close>, a call of \<open>move\<close> that returns without reaching the line that sets
  the trapped flag leaves the head at a coordinate other than the one before the call.
  This holds for every head, array and random draw: under \<open>'wall'\<close> the chosen direction
  is not one at whose edge the head stands, and a step of one site is never undone by
  the reduction modulo a maximum of two or more.
\<close>

theorem move_changes_head:
  assumes "2 \<le> xm" and "2 \<le> ym" and "pol = ''wall'' \<or> pol = ''periodic''"
    and "move r xm ym pol occ s = Inr t" and "\<not> sets_trapped xm ym pol occ s"
  shows "(xpos t, ypos t) \<noteq> (xpos s, ypos s)"
proof -
  from move_not_trapped [OF assms(4,5)] obtain A d
    where a: "allowed_dirs xm ym pol occ s = Inr A" and d: "d \<in> A"
      and n: "normalise xm ym (advance_body (shift xm ym pol (s\<lparr>direction := Some d\<rparr>))) = Inr t"
    by blast
  from a obtain D where D: "disallowed xm ym pol occ s = Inr D"
    and "A = {North, East, South, West} - D"
    by (auto simp: allowed_dirs_Inr)
  with d have nd: "d \<notin> D" by simp
  have edge: "pol = ''wall'' \<Longrightarrow> (ypos s = ym \<longrightarrow> d \<noteq> North) \<and> (xpos s = xm \<longrightarrow> d \<noteq> East) \<and>
         (ypos s = 0 \<longrightarrow> d \<noteq> South) \<and> (xpos s = 0 \<longrightarrow> d \<noteq> West)"
    using disallowed_wall_edges [of xm ym occ s D] D nd by auto
  note t = normalise_Inr(1) [OF n]
  note ar = mod_succ_ne [OF assms(1)] mod_succ_ne [OF assms(2)]
    mod_pred_ne [OF assms(1)] mod_pred_ne [OF assms(2)]
    mod_above_ne [OF assms(1)] mod_above_ne [OF assms(2)]
    mod_below_ne [OF assms(1)] mod_below_ne [OF assms(2)]
  let ?s3 = "advance_body (shift xm ym pol (s\<lparr>direction := Some d\<rparr>))"
  have xt: "xpos t = (if xpos ?s3 = xm then xm else xpos ?s3 mod xm)"
    and yt: "ypos t = (if ypos ?s3 = ym then ym else ypos ?s3 mod ym)"
    using t by simp_all
  show ?thesis
  proof (cases d)
    case North
    have y3: "ypos ?s3 = (if ypos s < ym \<or> pol = ''periodic'' then ypos s + 1 else ypos s)"
      using assms(3) by (auto simp: shift_def North)
    have "\<not> (ypos s < ym \<or> pol = ''periodic'') \<Longrightarrow> ym < ypos s"
      using edge assms(3) North by auto
    then have "ypos t \<noteq> ypos s"
      unfolding yt y3 using ar(2,6) by (auto split: if_splits)
    then show ?thesis by simp
  next
    case East
    have x3: "xpos ?s3 = (if xpos s < xm \<or> pol = ''periodic'' then xpos s + 1 else xpos s)"
      using assms(3) by (auto simp: shift_def East)
    have "\<not> (xpos s < xm \<or> pol = ''periodic'') \<Longrightarrow> xm < xpos s"
      using edge assms(3) East by auto
    then have "xpos t \<noteq> xpos s"
      unfolding xt x3 using ar(1,5) by (auto split: if_splits)
    then show ?thesis by simp
  next
    case South
    have y3: "ypos ?s3 = (if 0 < ypos s \<or> pol = ''periodic'' then ypos s - 1 else ypos s)"
      using assms(3) by (auto simp: shift_def South)
    have "\<not> (0 < ypos s \<or> pol = ''periodic'') \<Longrightarrow> ypos s < 0"
      using edge assms(3) South by auto
    then have "ypos t \<noteq> ypos s"
      unfolding yt y3 using ar(4,8) assms(2) by (auto split: if_splits)
    then show ?thesis by simp
  next
    case West
    have x3: "xpos ?s3 = (if 0 < xpos s \<or> pol = ''periodic'' then xpos s - 1 else xpos s)"
      using assms(3) by (auto simp: shift_def West)
    have "\<not> (0 < xpos s \<or> pol = ''periodic'') \<Longrightarrow> xpos s < 0"
      using edge assms(3) West by auto
    then have "xpos t \<noteq> xpos s"
      unfolding xt x3 using ar(3,7) assms(1) by (auto split: if_splits)
    then show ?thesis by simp
  qed
qed

theorem move_changes_head_witness:
  "(2::int) \<le> 20 \<and> ''wall'' = ''wall'' \<and>
   move 0 20 20 ''wall'' occ_snec snec = Inr snec_moved \<and>
   \<not> sets_trapped 20 20 ''wall'' occ_snec snec \<and>
   (xpos snec_moved, ypos snec_moved) \<noteq> (xpos snec, ypos snec)"
proof -
  have h: "(2::int) \<le> 20" by simp
  have p: "''wall'' = ''wall'' \<or> ''wall'' = ''periodic''" by simp
  from move_changes_head [OF h h p move_snec snec_not_trapped] h move_snec snec_not_trapped
  show ?thesis by simp
qed

subsection \<open>Periodic boundaries: a move across an edge\<close>

text \<open>
  Claim C1 says that under \<open>'periodic'\<close> a move across an edge lands on the opposite
  edge coordinate (north from \<open>ymax\<close> on 0, east from \<open>xmax\<close> on 0, south from 0 on
  \<open>ymax\<close>, west from 0 on \<open>xmax\<close>). The code identifies the two edges as one position
  of the torus (lines 134 to 144 and 201 to 207), so a move across an edge lands one
  site beyond the opposite edge. On the \<open>10 \<times> 10\<close> grid a snake with its head at
  \<open>(10, 5)\<close> that moves east lands at \<open>x = 1\<close>, not at \<open>x = 0\<close>.
\<close>

theorem periodic_east_edge_counterexample:
  "xpos (Snake_init (10, 5) ''bo'' ''b'' East 3) = 10 \<and>
   map_sum id (\<lambda>t. (direction t, xpos t, ypos t))
     (move 1 10 10 ''periodic'' \<lparr>rows = 11, cols = 11, cells = {(10, 5), (9, 5)}\<rparr>
        (Snake_init (10, 5) ''bo'' ''b'' East 3)) = Inr (Some East, 1, 5) \<and>
   (1::int) \<noteq> 0"
  by code_simp

text \<open>
  Claim C1 as amended. Under \<open>'periodic'\<close>, on a grid with \<open>xmax \<ge> 0\<close> and
  \<open>ymax \<ge> 0\<close>, a call of \<open>move\<close> that returns and moves the snake lands, from
  \<open>y = ymax\<close> going north, on \<open>y = (ymax + 1) mod ymax\<close>, which is 1 for
  \<open>ymax \<ge> 2\<close>; from \<open>x = xmax\<close> going east on \<open>x = (xmax + 1) mod xmax\<close>, 1 for
  \<open>xmax \<ge> 2\<close>; from \<open>y = 0\<close> going south on \<open>y = ymax - 1\<close>; from \<open>x = 0\<close> going
  west on \<open>x = xmax - 1\<close>.
\<close>

theorem periodic_wrap:
  assumes "0 \<le> xm" and "0 \<le> ym"
    and "move r xm ym ''periodic'' occ s = Inr t"
    and "\<not> sets_trapped xm ym ''periodic'' occ s"
  shows "(direction t = Some North \<and> ypos s = ym \<longrightarrow>
            ypos t = (ym + 1) mod ym \<and> (2 \<le> ym \<longrightarrow> ypos t = 1)) \<and>
         (direction t = Some East \<and> xpos s = xm \<longrightarrow>
            xpos t = (xm + 1) mod xm \<and> (2 \<le> xm \<longrightarrow> xpos t = 1)) \<and>
         (direction t = Some South \<and> ypos s = 0 \<longrightarrow> ypos t = ym - 1) \<and>
         (direction t = Some West \<and> xpos s = 0 \<longrightarrow> xpos t = xm - 1)"
proof -
  from move_not_trapped [OF assms(3,4)] obtain d
    where d: "direction t = Some d"
      and n: "normalise xm ym (advance_body (shift xm ym ''periodic'' (s\<lparr>direction := Some d\<rparr>))) = Inr t"
    by blast
  let ?s3 = "advance_body (shift xm ym ''periodic'' (s\<lparr>direction := Some d\<rparr>))"
  note t = normalise_Inr [OF n]
  have xt: "xpos t = (if xpos ?s3 = xm then xm else xpos ?s3 mod xm)"
    and yt: "ypos t = (if ypos ?s3 = ym then ym else ypos ?s3 mod ym)"
    using t(1) by simp_all
  have north: "ypos t = (ym + 1) mod ym \<and> (2 \<le> ym \<longrightarrow> ypos t = 1)"
    if "d = North" "ypos s = ym"
  proof -
    have "ypos ?s3 = ym + 1" using that by (simp add: shift_def)
    then have "ypos t = (ym + 1) mod ym" using yt by simp
    then show ?thesis by simp
  qed
  have east: "xpos t = (xm + 1) mod xm \<and> (2 \<le> xm \<longrightarrow> xpos t = 1)"
    if "d = East" "xpos s = xm"
  proof -
    have "xpos ?s3 = xm + 1" using that by (simp add: shift_def)
    then have "xpos t = (xm + 1) mod xm" using xt by simp
    then show ?thesis by simp
  qed
  have south: "ypos t = ym - 1" if "d = South" "ypos s = 0"
  proof -
    have y3: "ypos ?s3 = - 1" using that by (simp add: shift_def)
    with assms(2) have "ypos ?s3 \<noteq> ym" by simp
    with t(3) have "ym \<noteq> 0" by simp
    with assms(2) have "0 < ym" by simp
    then have "(- 1) mod ym = ym - 1" by (rule zmod_minus1)
    with yt y3 assms(2) show ?thesis by simp
  qed
  have west: "xpos t = xm - 1" if "d = West" "xpos s = 0"
  proof -
    have x3: "xpos ?s3 = - 1" using that by (simp add: shift_def)
    with assms(1) have "xpos ?s3 \<noteq> xm" by simp
    with t(2) have "xm \<noteq> 0" by simp
    with assms(1) have "0 < xm" by simp
    then have "(- 1) mod xm = xm - 1" by (rule zmod_minus1)
    with xt x3 assms(1) show ?thesis by simp
  qed
  from north east south west d show ?thesis by simp
qed

theorem periodic_wrap_witness:
  "(direction (projr (move 0 10 10 ''periodic'' occ_ne corner_ne)) = Some North \<and>
    ypos corner_ne = 10 \<and>
    ypos (projr (move 0 10 10 ''periodic'' occ_ne corner_ne)) = 1) \<and>
   (direction (projr (move 1 10 10 ''periodic'' occ_ne corner_ne)) = Some East \<and>
    xpos corner_ne = 10 \<and>
    xpos (projr (move 1 10 10 ''periodic'' occ_ne corner_ne)) = 1) \<and>
   (direction (projr (move 1 10 10 ''periodic'' occ_sw corner_sw)) = Some South \<and>
    ypos corner_sw = 0 \<and>
    ypos (projr (move 1 10 10 ''periodic'' occ_sw corner_sw)) = 9) \<and>
   (direction (projr (move 2 10 10 ''periodic'' occ_sw corner_sw)) = Some West \<and>
    xpos corner_sw = 0 \<and>
    xpos (projr (move 2 10 10 ''periodic'' occ_sw corner_sw)) = 9)"
proof -
  have h: "(0::int) \<le> 10" by simp
  have ne: "\<not> sets_trapped 10 10 ''periodic'' occ_ne corner_ne" by code_simp
  have sw: "\<not> sets_trapped 10 10 ''periodic'' occ_sw corner_sw" by code_simp
  have mN: "move 0 10 10 ''periodic'' occ_ne corner_ne =
            Inr (projr (move 0 10 10 ''periodic'' occ_ne corner_ne))" by code_simp
  have dN: "direction (projr (move 0 10 10 ''periodic'' occ_ne corner_ne)) = Some North \<and>
            ypos corner_ne = 10" by code_simp
  have mE: "move 1 10 10 ''periodic'' occ_ne corner_ne =
            Inr (projr (move 1 10 10 ''periodic'' occ_ne corner_ne))" by code_simp
  have dE: "direction (projr (move 1 10 10 ''periodic'' occ_ne corner_ne)) = Some East \<and>
            xpos corner_ne = 10" by code_simp
  have mS: "move 1 10 10 ''periodic'' occ_sw corner_sw =
            Inr (projr (move 1 10 10 ''periodic'' occ_sw corner_sw))" by code_simp
  have dS: "direction (projr (move 1 10 10 ''periodic'' occ_sw corner_sw)) = Some South \<and>
            ypos corner_sw = 0" by code_simp
  have mW: "move 2 10 10 ''periodic'' occ_sw corner_sw =
            Inr (projr (move 2 10 10 ''periodic'' occ_sw corner_sw))" by code_simp
  have dW: "direction (projr (move 2 10 10 ''periodic'' occ_sw corner_sw)) = Some West \<and>
            xpos corner_sw = 0" by code_simp
  from periodic_wrap [OF h h mN ne] dN
  have N: "ypos (projr (move 0 10 10 ''periodic'' occ_ne corner_ne)) = 1" by simp
  from periodic_wrap [OF h h mE ne] dE
  have E: "xpos (projr (move 1 10 10 ''periodic'' occ_ne corner_ne)) = 1" by simp
  from periodic_wrap [OF h h mS sw] dS
  have S: "ypos (projr (move 1 10 10 ''periodic'' occ_sw corner_sw)) = 9" by simp
  from periodic_wrap [OF h h mW sw] dW
  have W: "xpos (projr (move 2 10 10 ''periodic'' occ_sw corner_sw)) = 9" by simp
  from N E S W dN dE dS dW show ?thesis by blast
qed

subsection \<open>A boundary condition that is neither wall nor periodic\<close>

lemma list_of_all: "list_of ({North, East, South, West} - {}) = [North, East, South, West]"
  by (simp add: list_of_def)

lemma shift_unknown:
  "pol \<noteq> ''wall'' \<Longrightarrow> pol \<noteq> ''periodic'' \<Longrightarrow> shift xm ym pol s = s"
  by (simp add: shift_def split: option.splits compass.splits)

text \<open>
  Claim C9 says that a boundary policy other than \<open>'wall'\<close> and \<open>'periodic'\<close> is
  refused with a fatal error. No line of the code tests the value for validity:
  \<open>Grid.__init__\<close> stores it, and \<open>move\<close> tests it only for equality with the two names.
  A grid built with \<open>'torus'\<close> is built and runs its two steps; its snake is never
  trapped and never leaves its site.
\<close>

theorem unknown_policy_counterexample:
  "map_sum id (\<lambda>g. (bc g, map trapped (snakes g), map xpos (snakes g), map ypos (snakes g),
                     pauses g))
     (ebind (Grid_init [Snake_init (1, 1) ''bo'' ''b'' North 1] (2, 2) ''torus'' 2)
        (go (\<lambda>j i. 0))) = Inr (''torus'', [False], [1], [1], 2)"
  by code_simp

text \<open>
  Claim C9 as amended. A boundary policy other than \<open>'wall'\<close> and \<open>'periodic'\<close> is
  accepted: the construction of the grid stores it unchecked and returns what it
  returns for \<open>'wall'\<close> but for the stored value; \<open>move\<close> under such a value disallows
  no direction, never sets the trapped flag, chooses among all four directions, does
  not shift the head and only normalises it, so that a head on the lattice stays where
  it is.
\<close>

theorem unknown_policy_accepted:
  assumes "pol \<noteq> ''wall''" and "pol \<noteq> ''periodic''"
  shows "Grid_init ss gs pol n = map_sum id (\<lambda>g. g\<lparr>bc := pol\<rparr>) (Grid_init ss gs ''wall'' n) \<and>
         disallowed xm ym pol occ s = Inr {} \<and>
         \<not> sets_trapped xm ym pol occ s \<and>
         move r xm ym pol occ s =
           normalise xm ym (advance_body
             (s\<lparr>direction := Some ([North, East, South, West] ! (r mod 4))\<rparr>)) \<and>
         (0 \<le> xpos s \<and> xpos s \<le> xm \<and> 0 \<le> ypos s \<and> ypos s \<le> ym \<longrightarrow>
            (\<exists>t. move r xm ym pol occ s = Inr t \<and> xpos t = xpos s \<and> ypos t = ypos s \<and>
                 trapped t = trapped s))"
proof -
  have g: "Grid_init ss gs pol n = map_sum id (\<lambda>g. g\<lparr>bc := pol\<rparr>) (Grid_init ss gs ''wall'' n)"
    by (cases "np_zeros (fst gs + 1) (snd gs + 1)";
        cases "mark_snakes (projr (np_zeros (fst gs + 1) (snd gs + 1))) ss")
       (simp_all add: Grid_init_def)
  have d: "disallowed xm ym pol occ s = Inr {}"
    using assms by (simp add: disallowed_def)
  then have a: "allowed_dirs xm ym pol occ s = Inr {North, East, South, West}"
    by (simp add: allowed_dirs_def)
  then have st: "\<not> sets_trapped xm ym pol occ s"
    by (simp add: sets_trapped_def)
  have m: "move r xm ym pol occ s =
           normalise xm ym (advance_body
             (s\<lparr>direction := Some ([North, East, South, West] ! (r mod 4))\<rparr>))"
    using list_of_all by (simp add: move_def a random_choice_def shift_unknown [OF assms])
  have "\<exists>t. move r xm ym pol occ s = Inr t \<and> xpos t = xpos s \<and> ypos t = ypos s \<and>
                 trapped t = trapped s"
    if "0 \<le> xpos s \<and> xpos s \<le> xm \<and> 0 \<le> ypos s \<and> ypos s \<le> ym"
    unfolding m using that by (auto simp: normalise_def py_mod_def)
  with g d st m show ?thesis by blast
qed

theorem unknown_policy_accepted_witness:
  "''torus'' \<noteq> ''wall'' \<and> ''torus'' \<noteq> ''periodic'' \<and>
   Grid_init [snec, snek, sneck] (20, 20) ''torus'' 400 =
     map_sum id (\<lambda>g. g\<lparr>bc := ''torus''\<rparr>) (Grid_init [snec, snek, sneck] (20, 20) ''wall'' 400) \<and>
   disallowed 20 20 ''torus'' occ_snec snec = Inr {} \<and>
   \<not> sets_trapped 20 20 ''torus'' occ_snec snec \<and>
   (0 \<le> xpos snec \<and> xpos snec \<le> 20 \<and> 0 \<le> ypos snec \<and> ypos snec \<le> 20) \<and>
   (\<exists>t. move 1 20 20 ''torus'' occ_snec snec = Inr t \<and> xpos t = xpos snec \<and>
        ypos t = ypos snec \<and> trapped t = trapped snec)"
proof -
  have h1: "''torus'' \<noteq> ''wall''" by simp
  have h2: "''torus'' \<noteq> ''periodic''" by simp
  have h3: "0 \<le> xpos snec \<and> xpos snec \<le> 20 \<and> 0 \<le> ypos snec \<and> ypos snec \<le> 20"
    by (simp add: snec_def Snake_init_def)
  from unknown_policy_accepted [OF h1 h2, of "[snec, snek, sneck]" "(20, 20)" 400 20 20
    occ_snec snec 1] h1 h2 h3
  show ?thesis by blast
qed

subsection \<open>Periodic boundaries: the body after a move across an edge\<close>

text \<open>
  Claim C5 (the front of the body is the head after every move that does not trap) fails
  in the code at the edges of a periodic grid: lines 129 to 132 put the head into the
  body before lines 145 to 148 normalise it. A snake of length three with its head at
  \<open>(5, 10)\<close> on the \<open>10 \<times> 10\<close> periodic grid that moves north has its head at
  \<open>(5, 1)\<close> and the front of its body at \<open>(5, 11)\<close>.
\<close>

theorem body_front_not_head_periodic_edge:
  "map_sum id (\<lambda>t. (trapped t, (xpos t, ypos t), (hd (linexpos t), hd (lineypos t))))
     (move 0 10 10 ''periodic'' \<lparr>rows = 11, cols = 11, cells = {(5, 10), (5, 9)}\<rparr>
        (Snake_init (5, 10) ''bo'' ''b'' North 3)) = Inr (False, (5, 1), (5, 11))"
  by code_simp

text \<open>
  Claim C2 (no read or write of the occupancy array leaves \<open>[0, xmax] \<times> [0, ymax]\<close>)
  fails in the code for the same reason: the body keeps the coordinate \<open>ymax + 1\<close>, and
  line 200 of \<open>Grid.go\<close> writes the array at the coordinates of the body. The grid of
  the snake above is built without an error, its first step moves the snake north, and
  the step ends in an IndexError.
\<close>

theorem go_periodic_edge_index_error:
  "(case Grid_init [Snake_init (5, 10) ''bo'' ''b'' North 3] (10, 10) ''periodic'' 1 of
      Inl e \<Rightarrow> False
    | Inr g \<Rightarrow>
        occupied g = \<lparr>rows = 11, cols = 11, cells = {(5, 10), (5, 9), (5, 8)}\<rparr> \<and>
        map_sum id (\<lambda>t. (ypos t, lineypos t))
          (move 0 10 10 ''periodic'' \<lparr>rows = 11, cols = 11, cells = {(5, 10), (5, 9)}\<rparr>
             (snakes g ! 0)) = Inr (1, [11, 10, 9]) \<and>
        setitem_fancy (occupied g) [5, 5, 5] [11, 10, 9] True = Inl IndexError \<and>
        go (\<lambda>j i. 0) g = Inl IndexError)"
  by code_simp

subsection \<open>Trapped snakes\<close>

text \<open>The flag itself is never cleared: a call of \<open>move\<close> on a trapped snake returns
  a trapped snake.\<close>

lemma moves_to_trapped:
  assumes "moves_to xm ym pol s t" and "trapped s"
  shows "trapped t"
  using assms
proof (induction rule: moves_to.induct)
  case start
  then show ?case .
next
  case (step t r occ u)
  from step.IH [OF step.prems] move_trapped [OF step.hyps(2)] show ?case by simp
qed

text \<open>
  Claim C3 (a trapped snake keeps its head and body, and the loop neither recomputes
  its moves nor changes the occupancy for it) fails in the code: \<open>Grid.go\<close> clears the
  site of the tail and calls \<open>move\<close> for every snake, trapped or not (lines 194 and
  195), and \<open>move\<close> does not test the flag. On the \<open>2 \<times> 2\<close> grid with walls the first
  snake, head at \<open>(0, 0)\<close> and body up to \<open>(0, 2)\<close>, is trapped in the first step between
  its own body and the second snake; the site \<open>(0, 2)\<close> of its tail is cleared and stays
  so. The second snake moves away, and in the second step the first snake, its flag
  still set, moves east to \<open>(1, 0)\<close>, a site the occupancy does not show.
\<close>

theorem trapped_snake_moves_again:
  "map_sum id (\<lambda>g. (trapped (snakes g ! 0), xpos (snakes g ! 0), ypos (snakes g ! 0),
                     linexpos (snakes g ! 0), lineypos (snakes g ! 0), cells (occupied g)))
     (ebind (Grid_init [Snake_init (0, 0) ''bo'' ''b'' South 3,
                        Snake_init (2, 0) ''ro'' ''r'' East 2] (2, 2) ''wall'' 1)
        (go (\<lambda>j i. 0)))
     = Inr (True, 0, 0, [0, 0, 0], [0, 1, 2], {(2, 1), (2, 0), (0, 1), (0, 0)}) \<and>
   map_sum id (\<lambda>g. (trapped (snakes g ! 0), xpos (snakes g ! 0), ypos (snakes g ! 0),
                     linexpos (snakes g ! 0), lineypos (snakes g ! 0), cells (occupied g)))
     (ebind (Grid_init [Snake_init (0, 0) ''bo'' ''b'' South 3,
                        Snake_init (2, 0) ''ro'' ''r'' East 2] (2, 2) ''wall'' 2)
        (go (\<lambda>j i. 0)))
     = Inr (True, 1, 0, [1, 0, 0], [0, 0, 1], {(2, 2), (2, 1), (0, 1), (0, 0)})"
  by code_simp

subsection \<open>The number of steps\<close>

lemma snake_step_pauses:
  assumes "snake_step r g i = Inr g'"
  shows "pauses g' = pauses g"
  using assms unfolding snake_step_def ebind_eq_Inr by auto

lemma for_snakes_pauses:
  "for_snakes rs g is = Inr g' \<Longrightarrow> pauses g' = pauses g"
proof (induction "is" arbitrary: g)
  case Nil
  then show ?case by simp
next
  case (Cons i "is")
  from Cons.prems obtain g1 where s: "snake_step (rs i) g i = Inr g1"
    and f: "for_snakes rs g1 is = Inr g'"
    by (auto simp: ebind_eq_Inr)
  from Cons.IH [OF f] snake_step_pauses [OF s] show ?case by simp
qed

lemma tick_pauses: "tick rs g = Inr g' \<Longrightarrow> pauses g' = pauses g + 1"
  by (auto simp: tick_def ebind_eq_Inr dest: for_snakes_pauses)

lemma for_steps_pauses:
  "for_steps rnd g js = Inr g' \<Longrightarrow> pauses g' = pauses g + length js"
proof (induction js arbitrary: g)
  case Nil
  then show ?case by simp
next
  case (Cons j js)
  from Cons.prems obtain g1 where s: "tick (rnd j) g = Inr g1"
    and f: "for_steps rnd g1 js = Inr g'"
    by (auto simp: ebind_eq_Inr)
  from Cons.IH [OF f] tick_pauses [OF s] show ?case by simp
qed

text \<open>A run that returns has made all its \<open>nSteps\<close> steps, or none when every snake
  was trapped before the first: never more than \<open>nSteps\<close>, and never fewer because the
  snakes became trapped on the way.\<close>

lemma go_pauses:
  assumes "go rnd g = Inr g'"
  shows "pauses g' = pauses g + (if list_all trapped (snakes g) then 0 else nat (nSteps g))"
  using assms by (auto simp: go_def dest: for_steps_pauses split: if_splits)

text \<open>
  Claim C4 (the run never begins a step once every snake is trapped) fails in the
  code: the condition of the \<open>while\<close> loop is tested once, before the first step, and
  the loop over the steps does not test it. On the grid of two columns and three rows
  both snakes are trapped in the first step; with \<open>nSteps = 3\<close> the run makes three
  steps all the same.
\<close>

theorem go_runs_on_after_all_trapped:
  "map_sum id (\<lambda>g. (map trapped (snakes g), pauses g))
     (ebind (Grid_init [Snake_init (0, 0) ''bo'' ''b'' South 3,
                        Snake_init (1, 0) ''ro'' ''r'' South 3] (1, 2) ''wall'' 1)
        (go (\<lambda>j i. 0))) = Inr ([True, True], 1) \<and>
   map_sum id (\<lambda>g. (map trapped (snakes g), pauses g))
     (ebind (Grid_init [Snake_init (0, 0) ''bo'' ''b'' South 3,
                        Snake_init (1, 0) ''ro'' ''r'' South 3] (1, 2) ''wall'' 3)
        (go (\<lambda>j i. 0))) = Inr ([True, True], 3)"
  by code_simp

end
